theory Spec2Isabelle
  imports Main "HOL-Library.Sublist" "HOL-Library.Word"
begin

section \<open>Go strings\<close>

text \<open>
  A Go string is modelled as the sequence of Unicode code points (runes) it decodes to:
  \<^verbatim>\<open>regexp\<close>, \<^verbatim>\<open>strings.TrimSpace\<close>, \<^verbatim>\<open>strings.ToLower\<close> and
  \<^verbatim>\<open>strings.IndexAny\<close> all work rune by rune. Equality, prefix and substring tests on
  rune sequences agree with the byte-wise tests of Go on valid UTF-8 text. \<open>str\<close> turns an
  ASCII literal into such a sequence.
\<close>

type_synonym rune = nat
type_synonym gostring = "rune list"

definition str :: "string \<Rightarrow> gostring" where
  "str s = map of_char s"

text \<open>\<^verbatim>\<open>unicode.IsSpace\<close>: the code points with the Unicode property White_Space; in
  Latin-1 these are TAB, LF, VT, FF, CR, space, U+0085 and U+00A0.\<close>

definition isSpace :: "rune \<Rightarrow> bool" where
  "isSpace r \<longleftrightarrow>
     r = 0x09 \<or> r = 0x0A \<or> r = 0x0B \<or> r = 0x0C \<or> r = 0x0D \<or> r = 0x20 \<or>
     r = 0x85 \<or> r = 0xA0 \<or> r = 0x1680 \<or> (0x2000 \<le> r \<and> r \<le> 0x200A) \<or>
     r = 0x2028 \<or> r = 0x2029 \<or> r = 0x202F \<or> r = 0x205F \<or> r = 0x3000"

definition TrimSpace :: "gostring \<Rightarrow> gostring" where
  "TrimSpace s = rev (dropWhile isSpace (rev (dropWhile isSpace s)))"

definition HasPrefix :: "gostring \<Rightarrow> gostring \<Rightarrow> bool" where
  "HasPrefix s p = (take (length p) s = p)"

definition TrimPrefix :: "gostring \<Rightarrow> gostring \<Rightarrow> gostring" where
  "TrimPrefix s p = (if HasPrefix s p then drop (length p) s else s)"

text \<open>\<^verbatim>\<open>strings.Contains(s, substr)\<close>: some suffix of \<open>s\<close> starts with \<open>substr\<close>.\<close>

fun Contains :: "gostring \<Rightarrow> gostring \<Rightarrow> bool" where
  "Contains [] sub = (sub = [])"
| "Contains (c # cs) sub = (HasPrefix (c # cs) sub \<or> Contains cs sub)"

text \<open>\<^verbatim>\<open>strings.IndexAny(s, chars)\<close>: the position of the first rune of \<open>s\<close> that is one
  of \<open>chars\<close>; \<open>None\<close> stands for Go's \<open>-1\<close>.\<close>

fun IndexAny :: "gostring \<Rightarrow> gostring \<Rightarrow> nat option" where
  "IndexAny [] chars = None"
| "IndexAny (c # cs) chars =
     (if c \<in> set chars then Some 0 else map_option Suc (IndexAny cs chars))"

text \<open>\<^verbatim>\<open>strings.ToLower\<close> maps every rune through the Unicode case table
  \<^verbatim>\<open>unicode.ToLower\<close>, which is a parameter here.\<close>

definition ToLower :: "(rune \<Rightarrow> rune) \<Rightarrow> gostring \<Rightarrow> gostring" where
  "ToLower tbl s = map tbl s"

text \<open>The ASCII rows of the case table, enough to run the examples.\<close>

definition asciiToLower :: "rune \<Rightarrow> rune" where
  "asciiToLower r = (if 65 \<le> r \<and> r \<le> 90 then r + 32 else r)"

subsection \<open>Formatting integers\<close>





section \<open>Errors\<close>

text \<open>An error is a value of a library (opaque, told apart by a number), a fresh
  message (\<^verbatim>\<open>fmt.Errorf("msg")\<close>) or a wrapped error
  (\<^verbatim>\<open>fmt.Errorf("msg: %w", err)\<close>).\<close>

datatype error = LibError nat | NewError gostring | Wrap gostring error

section \<open>sanitizeFilename\<close>




section \<open>HTML documents and goquery\<close>

text \<open>
  A parsed document is the list of the children of its document node. Only elements have
  children; an element carries its tag (\<^verbatim>\<open>Data\<close>) and its attributes
  (\<^verbatim>\<open>Attr\<close>, key and value) in order.
\<close>

type_synonym attribute = "gostring \<times> gostring"

datatype node =
    Element gostring "attribute list" "node list"
  | TextNode gostring
  | CommentNode gostring
  | DoctypeNode gostring

text \<open>\<^verbatim>\<open>Selection.Text()\<close>: the data of all text nodes below the selected nodes, in
  document order.\<close>

fun Text :: "node list \<Rightarrow> gostring" where
  "Text [] = []"
| "Text (Element t as cs # ks) = Text cs @ Text ks"
| "Text (TextNode d # ks) = d @ Text ks"
| "Text (CommentNode d # ks) = Text ks"
| "Text (DoctypeNode d # ks) = Text ks"

text \<open>\<^verbatim>\<open>Selection.Attr(name)\<close> reads the first attribute with that key;
  \<^verbatim>\<open>Selection.SetAttr(name, val)\<close> overwrites the first attribute with that key, or
  appends a new one.\<close>

definition Attr :: "attribute list \<Rightarrow> gostring \<Rightarrow> gostring option" where
  "Attr as name = map_of as name"

fun SetAttr :: "gostring \<Rightarrow> gostring \<Rightarrow> attribute list \<Rightarrow> attribute list" where
  "SetAttr name val [] = [(name, val)]"
| "SetAttr name val ((k, v) # as) =
     (if k = name then (k, val) # as else (k, v) # SetAttr name val as)"

subsection \<open>Selectors\<close>

text \<open>
  A compiled selector decides whether an element matches, from the element's tag and
  attributes and from its ancestors (nearest first, each with tag and attributes).
  The class selector looks for the name among the words of a \<^verbatim>\<open>class\<close> attribute,
  split at space, tab, CR, LF and FF; the id selector compares an \<^verbatim>\<open>id\<close> attribute.
\<close>

type_synonym head = "gostring \<times> attribute list"
type_synonym selector = "head list \<Rightarrow> gostring \<Rightarrow> attribute list \<Rightarrow> bool"

fun splitWords :: "gostring \<Rightarrow> gostring \<Rightarrow> gostring list" where
  "splitWords cur [] = [cur]"
| "splitWords cur (c # cs) =
     (if c = 32 \<or> c = 9 \<or> c = 13 \<or> c = 10 \<or> c = 12 then cur # splitWords [] cs
      else splitWords (cur @ [c]) cs)"

definition matchInclude :: "gostring \<Rightarrow> gostring \<Rightarrow> bool" where
  "matchInclude val s = (val \<in> set (splitWords [] s))"

definition sel_any :: selector where
  "sel_any anc t as = True"

definition sel_tag :: "gostring \<Rightarrow> selector" where
  "sel_tag name anc t as = (t = name)"

definition sel_class :: "gostring \<Rightarrow> selector" where
  "sel_class name anc t as = list_ex (\<lambda>(k, v). k = str ''class'' \<and> matchInclude name v) as"

definition sel_id :: "gostring \<Rightarrow> selector" where
  "sel_id name anc t as = list_ex (\<lambda>(k, v). k = str ''id'' \<and> v = name) as"

text \<open>The child combinator \<^verbatim>\<open>A > B\<close> and the descendant combinator \<^verbatim>\<open>A B\<close>.\<close>

definition sel_child :: "selector \<Rightarrow> selector \<Rightarrow> selector" where
  "sel_child a b anc t as =
     (b anc t as \<and> (case anc of [] \<Rightarrow> False | (pt, pas) # up \<Rightarrow> a up pt pas))"

fun anyAncestor :: "selector \<Rightarrow> head list \<Rightarrow> bool" where
  "anyAncestor a [] = False"
| "anyAncestor a ((pt, pas) # up) = (a up pt pas \<or> anyAncestor a up)"

definition sel_desc :: "selector \<Rightarrow> selector \<Rightarrow> selector" where
  "sel_desc a b anc t as = (b anc t as \<and> anyAncestor a anc)"

subsection \<open>Find, Remove, First, Each\<close>

text \<open>\<^verbatim>\<open>doc.Find(sel)\<close>: the matching elements in document order (an element before
  its descendants).\<close>

fun Find :: "selector \<Rightarrow> head list \<Rightarrow> node list \<Rightarrow> node list" where
  "Find sel anc [] = []"
| "Find sel anc (Element t as cs # ks) =
     (if sel anc t as then [Element t as cs] else []) @ Find sel ((t, as) # anc) cs @ Find sel anc ks"
| "Find sel anc (TextNode d # ks) = Find sel anc ks"
| "Find sel anc (CommentNode d # ks) = Find sel anc ks"
| "Find sel anc (DoctypeNode d # ks) = Find sel anc ks"

text \<open>\<^verbatim>\<open>doc.Find(sel).Remove()\<close>: every matching element is detached from its parent.\<close>

fun RemoveAll :: "selector \<Rightarrow> head list \<Rightarrow> node list \<Rightarrow> node list" where
  "RemoveAll sel anc [] = []"
| "RemoveAll sel anc (Element t as cs # ks) =
     (if sel anc t as then RemoveAll sel anc ks
      else Element t as (RemoveAll sel ((t, as) # anc) cs) # RemoveAll sel anc ks)"
| "RemoveAll sel anc (TextNode d # ks) = TextNode d # RemoveAll sel anc ks"
| "RemoveAll sel anc (CommentNode d # ks) = CommentNode d # RemoveAll sel anc ks"
| "RemoveAll sel anc (DoctypeNode d # ks) = DoctypeNode d # RemoveAll sel anc ks"

text \<open>\<^verbatim>\<open>doc.Find(sel).First().Remove()\<close>: only the first match in document order is
  detached; \<open>None\<close> when nothing matches.\<close>

fun removeFirst :: "selector \<Rightarrow> head list \<Rightarrow> node list \<Rightarrow> node list option" where
  "removeFirst sel anc [] = None"
| "removeFirst sel anc (Element t as cs # ks) =
     (if sel anc t as then Some ks
      else (case removeFirst sel ((t, as) # anc) cs of
              Some cs' \<Rightarrow> Some (Element t as cs' # ks)
            | None \<Rightarrow> map_option ((#) (Element t as cs)) (removeFirst sel anc ks)))"
| "removeFirst sel anc (TextNode d # ks) = map_option ((#) (TextNode d)) (removeFirst sel anc ks)"
| "removeFirst sel anc (CommentNode d # ks) =
     map_option ((#) (CommentNode d)) (removeFirst sel anc ks)"
| "removeFirst sel anc (DoctypeNode d # ks) =
     map_option ((#) (DoctypeNode d)) (removeFirst sel anc ks)"

definition RemoveFirst :: "selector \<Rightarrow> node list \<Rightarrow> node list" where
  "RemoveFirst sel doc = (case removeFirst sel [] doc of Some doc' \<Rightarrow> doc' | None \<Rightarrow> doc)"

text \<open>\<^verbatim>\<open>doc.Find(sel).Each(f)\<close> for a callback that only sets attributes of the selected
  element: \<open>f\<close> gets the element's tag, attributes and children and returns its new
  attributes. The selection is computed before the callbacks run.\<close>

fun Each :: "selector \<Rightarrow> (gostring \<Rightarrow> attribute list \<Rightarrow> node list \<Rightarrow> attribute list) \<Rightarrow>
    head list \<Rightarrow> node list \<Rightarrow> node list" where
  "Each sel f anc [] = []"
| "Each sel f anc (Element t as cs # ks) =
     Element t (if sel anc t as then f t as cs else as) (Each sel f ((t, as) # anc) cs)
       # Each sel f anc ks"
| "Each sel f anc (TextNode d # ks) = TextNode d # Each sel f anc ks"
| "Each sel f anc (CommentNode d # ks) = CommentNode d # Each sel f anc ks"
| "Each sel f anc (DoctypeNode d # ks) = DoctypeNode d # Each sel f anc ks"

section \<open>Data of the program and its collaborators\<close>

text \<open>\<^verbatim>\<open>time.Time\<close> as far as the program reads it: \<^verbatim>\<open>Year()\<close> and \<^verbatim>\<open>Month()\<close>
  (1 to 12), each in the time's own location.\<close>

record gotime =
  Year :: int
  Month :: int

text \<open>\<^verbatim>\<open>Config\<close>: the filter settings. \<^verbatim>\<open>Filter.Count\<close> is a Go \<^verbatim>\<open>int\<close>, 64 bits wide
  on the 64-bit platforms, read as signed.\<close>

record Config =
  Filter_Count :: "64 word"
  Filter_Subject :: gostring
  Filter_From :: gostring

record InvoiceEmail =
  Subject :: gostring
  Date :: gotime
  HTMLBody :: gostring


text \<open>\<^verbatim>\<open>imap.Address\<close>, \<^verbatim>\<open>imap.Envelope\<close> and \<^verbatim>\<open>imap.Message\<close>, with the fields the
  program reads.\<close>

record Address =
  HostName :: gostring

record Envelope =
  env_Date :: gotime
  env_Subject :: gostring
  env_From :: "Address list"

text \<open>
  A raw message body as \<^verbatim>\<open>mail.CreateReader\<close> and \<^verbatim>\<open>Reader.NextPart\<close> present it:
  creating the reader fails, or it yields a sequence of results, each an error or a part,
  and then \<^verbatim>\<open>io.EOF\<close>. A part has an inline or an attachment header, the media type
  that \<^verbatim>\<open>ContentType()\<close> returns for it, and the result of reading its body.
\<close>

datatype header = InlineHeader gostring | AttachmentHeader gostring

record part =
  part_Header :: header
  part_Body :: "error + gostring"

type_synonym rawbody = "error + (error + part) list"

text \<open>The media type a part declares, whichever header it has.\<close>

fun header_ContentType :: "header \<Rightarrow> gostring" where
  "header_ContentType (InlineHeader ct) = ct"
| "header_ContentType (AttachmentHeader ct) = ct"

record Message =
  msg_Envelope :: "Envelope option"
  msg_Uid :: "32 word"
  msg_Body :: "rawbody option"

text \<open>
  The IMAP server as the client sees it in one session: the results of dialling, of the
  login and of selecting INBOX (the number of messages), and, for a fetch by sequence
  range and a fetch by UID set, the messages delivered on the channel followed by the
  error that ends the command (\<open>None\<close> for \<^verbatim>\<open>nil\<close>).
\<close>

record imap =
  DialTLS :: "error option"
  Login :: "error option"
  Select :: "error + 32 word"
  Fetch :: "32 word \<times> 32 word \<Rightarrow> Message list \<times> error option"
  UidFetch :: "32 word set \<Rightarrow> Message list \<times> error option"

datatype command =
    Cmd_DialTLS | Cmd_Login | Cmd_Select
  | Cmd_Fetch "32 word" "32 word" | Cmd_UidFetch "32 word set" | Cmd_Logout

text \<open>
  Everything else the program calls outside its own code: the clock, the Unicode case
  table, the HTML parser and serialiser, the HTTP client (for a URL: an error, or the
  Content-Type header and the result of reading the body), Base64, and the headless
  browser that prints a page.
\<close>

record extern =
  time_Now :: gotime
  unicode_ToLower :: "rune \<Rightarrow> rune"
  html_Parse :: "gostring \<Rightarrow> error + node list"
  html_Render :: "node list \<Rightarrow> error + gostring"
  http_Get :: "gostring \<Rightarrow> error + gostring \<times> (error + nat list)"
  base64_Encode :: "nat list \<Rightarrow> gostring"
  chrome_PrintToPDF :: "gostring \<Rightarrow> error + nat list"

section \<open>matchesFilter\<close>

text \<open>The loop over \<^verbatim>\<open>env.From\<close>, returning at the first address that matches.
  \<^verbatim>\<open>time.Now()\<close> is the clock of the collaborators, read as one instant for the
  whole run.\<close>

fun fromLoop :: "(rune \<Rightarrow> rune) \<Rightarrow> Address list \<Rightarrow> gostring \<Rightarrow> bool" where
  "fromLoop tbl [] flt = False"
| "fromLoop tbl (addr # rest) flt =
     (if Contains (ToLower tbl (HostName addr)) (ToLower tbl flt) then True
      else fromLoop tbl rest flt)"

definition matchesFilter :: "extern \<Rightarrow> Envelope \<Rightarrow> Config \<Rightarrow> bool" where
  "matchesFilter x env cfg =
     (let now = time_Now x in
      if Year (env_Date env) \<noteq> Year now \<or> Month (env_Date env) \<noteq> Month now then False
      else if env_Subject env \<noteq> Filter_Subject cfg then False
      else fromLoop (unicode_ToLower x) (env_From env) (Filter_From cfg))"

section \<open>extractHTMLBody\<close>

fun partLoop :: "(error + part) list \<Rightarrow> error + gostring" where
  "partLoop [] = Inl (NewError (str ''no text/html part found''))"
| "partLoop (Inl err # rest) = Inl (Wrap (str ''reading mail part'') err)"
| "partLoop (Inr p # rest) =
     (case part_Header p of
        InlineHeader ct \<Rightarrow>
          if ct = str ''text/html'' then
            (case part_Body p of
               Inl err \<Rightarrow> Inl (Wrap (str ''reading HTML body'') err)
             | Inr body \<Rightarrow> Inr body)
          else partLoop rest
      | AttachmentHeader ct \<Rightarrow> partLoop rest)"

definition extractHTMLBody :: "rawbody \<Rightarrow> error + gostring" where
  "extractHTMLBody r =
     (case r of
        Inl err \<Rightarrow> Inl (Wrap (str ''creating mail reader'') err)
      | Inr parts \<Rightarrow> partLoop parts)"

section \<open>fetchInvoices, fetchMatchingUIDs, fetchBodies\<close>

text \<open>The start of the sequence range: \<^verbatim>\<open>from\<close> in \<^verbatim>\<open>fetchInvoices\<close>, with the
  conversion \<^verbatim>\<open>uint32(cfg.Filter.Count)\<close> and the arithmetic of \<^verbatim>\<open>uint32\<close>.\<close>

definition windowFrom :: "Config \<Rightarrow> 32 word \<Rightarrow> 32 word" where
  "windowFrom cfg messages =
     (if 0 < sint (Filter_Count cfg) then
        (let count = (ucast (Filter_Count cfg) :: 32 word) in
         if messages > count then messages - count + 1 else 1)
      else 1)"

text \<open>The loop of \<^verbatim>\<open>fetchMatchingUIDs\<close> over the channel of envelopes; the error of the
  fetch is logged as a warning and not returned.\<close>

fun uidLoop :: "extern \<Rightarrow> Config \<Rightarrow> Message list \<Rightarrow> 32 word list \<Rightarrow> 32 word list" where
  "uidLoop x cfg [] uids = uids"
| "uidLoop x cfg (msg # rest) uids =
     (case msg_Envelope msg of
        Some env \<Rightarrow>
          if matchesFilter x env cfg then uidLoop x cfg rest (uids @ [msg_Uid msg])
          else uidLoop x cfg rest uids
      | None \<Rightarrow> uidLoop x cfg rest uids)"

definition fetchMatchingUIDs :: "extern \<Rightarrow> imap \<Rightarrow> 32 word \<times> 32 word \<Rightarrow> Config \<Rightarrow> 32 word list" where
  "fetchMatchingUIDs x c seqSet cfg =
     (case Fetch c seqSet of (messages, done) \<Rightarrow> uidLoop x cfg messages [])"

text \<open>The loop of \<^verbatim>\<open>fetchBodies\<close>. \<open>None\<close> is the panic of \<^verbatim>\<open>msg.Envelope.Subject\<close>
  on a message without envelope.\<close>

fun bodyLoop :: "Message list \<Rightarrow> InvoiceEmail list \<Rightarrow> InvoiceEmail list option" where
  "bodyLoop [] invoices = Some invoices"
| "bodyLoop (msg # rest) invoices =
     (case msg_Body msg of
        None \<Rightarrow> bodyLoop rest invoices
      | Some r \<Rightarrow>
          (case extractHTMLBody r of
             Inl err \<Rightarrow> bodyLoop rest invoices
           | Inr htmlBody \<Rightarrow>
               (case msg_Envelope msg of
                  None \<Rightarrow> None
                | Some env \<Rightarrow>
                    bodyLoop rest (invoices @
                      [\<lparr>Subject = env_Subject env, Date = env_Date env, HTMLBody = htmlBody\<rparr>]))))"

definition fetchBodies :: "imap \<Rightarrow> 32 word list \<Rightarrow> (error + InvoiceEmail list) option" where
  "fetchBodies c uids =
     (case UidFetch c (set uids) of (messages, done) \<Rightarrow>
        (case bodyLoop messages [] of
           None \<Rightarrow> None
         | Some invoices \<Rightarrow>
             (case done of
                Some err \<Rightarrow> Some (Inl (Wrap (str ''fetching bodies'') err))
              | None \<Rightarrow> Some (Inr invoices))))"

text \<open>\<^verbatim>\<open>fetchInvoices\<close> returns its result (\<open>None\<close> for a panic) and, here, the commands
  it sent to the server, the deferred logout last.\<close>

definition fetchInvoices ::
    "extern \<Rightarrow> imap \<Rightarrow> Config \<Rightarrow> (error + InvoiceEmail list) option \<times> command list" where
  "fetchInvoices x c cfg =
     (case DialTLS c of
        Some err \<Rightarrow> (Some (Inl (Wrap (str ''connecting to IMAP server'') err)), [Cmd_DialTLS])
      | None \<Rightarrow>
     (case Login c of
        Some err \<Rightarrow> (Some (Inl (Wrap (str ''IMAP login'') err)), [Cmd_DialTLS, Cmd_Login, Cmd_Logout])
      | None \<Rightarrow>
     (case Select c of
        Inl err \<Rightarrow> (Some (Inl (Wrap (str ''selecting INBOX'') err)),
                    [Cmd_DialTLS, Cmd_Login, Cmd_Select, Cmd_Logout])
      | Inr messages \<Rightarrow>
          if messages = 0 then (Some (Inr []), [Cmd_DialTLS, Cmd_Login, Cmd_Select, Cmd_Logout])
          else
            (let from = windowFrom cfg messages;
                 matchUIDs = fetchMatchingUIDs x c (from, messages) cfg
             in if length matchUIDs = 0 then
                  (Some (Inr []),
                   [Cmd_DialTLS, Cmd_Login, Cmd_Select, Cmd_Fetch from messages, Cmd_Logout])
                else
                  (fetchBodies c matchUIDs,
                   [Cmd_DialTLS, Cmd_Login, Cmd_Select, Cmd_Fetch from messages,
                    Cmd_UidFetch (set matchUIDs), Cmd_Logout])))))"

section \<open>cleanHTML\<close>

definition embedImage :: "extern \<Rightarrow> gostring \<Rightarrow> error + gostring" where
  "embedImage x imgURL =
     (case http_Get x imgURL of
        Inl err \<Rightarrow> Inl err
      | Inr (contentType, body) \<Rightarrow>
          (case body of
             Inl err \<Rightarrow> Inl err
           | Inr bytes \<Rightarrow>
               (let mime = (if contentType = [] then str ''image/png'' else contentType)
                in Inr (str ''data:'' @ mime @ str '';base64,'' @ base64_Encode x bytes))))"

text \<open>The two callbacks handed to \<^verbatim>\<open>Each\<close>.\<close>

definition embedCallback :: "extern \<Rightarrow> gostring \<Rightarrow> attribute list \<Rightarrow> node list \<Rightarrow> attribute list" where
  "embedCallback x t as cs =
     (case Attr as (str ''src'') of
        Some src \<Rightarrow>
          if HasPrefix src (str ''http'') then
            (case embedImage x src of
               Inr dataURI \<Rightarrow> SetAttr (str ''src'') dataURI as
             | Inl err \<Rightarrow> as)
          else as
      | None \<Rightarrow> as)"

definition boldCallback :: "gostring \<Rightarrow> attribute list \<Rightarrow> node list \<Rightarrow> attribute list" where
  "boldCallback t as cs =
     (if Contains (Text cs) (str ''UID-Nr'') then SetAttr (str ''style'') (str ''font-weight:600'') as
      else as)"

text \<open>The mutations of \<^verbatim>\<open>cleanHTML\<close> between parsing and serialising, in source order.\<close>

definition cleanDoc :: "extern \<Rightarrow> node list \<Rightarrow> node list" where
  "cleanDoc x doc =
     (let d1 = Each (sel_tag (str ''img'')) (embedCallback x) [] doc;
          d2 = RemoveAll (sel_class (str ''action-button-cell'')) [] d1;
          d3 = RemoveFirst (sel_child (sel_id (str ''footer_section'')) (sel_tag (str ''p''))) d2;
          d4 = RemoveAll (sel_child (sel_id (str ''footer_section'')) (sel_class (str ''custom-1sstyyn''))) [] d3;
          d5 = Each (sel_desc (sel_class (str ''footer-copy'')) (sel_tag (str ''p''))) boldCallback [] d4;
          d6 = RemoveAll (sel_class (str ''inline-link-group'')) [] d5
      in d6)"

definition cleanHTML :: "extern \<Rightarrow> gostring \<Rightarrow> error + gostring" where
  "cleanHTML x htmlContent =
     (case html_Parse x htmlContent of
        Inl err \<Rightarrow> Inl (Wrap (str ''parsing HTML'') err)
      | Inr doc \<Rightarrow>
          (case html_Render x (cleanDoc x doc) of
             Inl err \<Rightarrow> Inl (Wrap (str ''rendering HTML'') err)
           | Inr html \<Rightarrow> Inr html))"

section \<open>extractOrderNumber\<close>

text \<open>The slice \<^verbatim>\<open>s[:i]\<close>, which panics (\<open>None\<close>) when \<open>i\<close> is beyond the end.\<close>

definition slice_to :: "gostring \<Rightarrow> nat \<Rightarrow> gostring option" where
  "slice_to s i = (if i \<le> length s then Some (take i s) else None)"

text \<open>The callback of \<^verbatim>\<open>EachWithBreak\<close> run over the selection: the loop stops at the
  first element whose trimmed text starts with the label. The runes 10, 13 and 9 are
  LF, CR and TAB.\<close>

fun orderLoop :: "node list \<Rightarrow> gostring option" where
  "orderLoop [] = Some []"
| "orderLoop (s # rest) =
     (let text = TrimSpace (Text [s]) in
      if HasPrefix text (str ''Bestellnummer:'') then
        (let orderNum = TrimSpace (TrimPrefix text (str ''Bestellnummer:'')) in
         case IndexAny orderNum [10, 13, 9] of
           Some idx \<Rightarrow> map_option TrimSpace (slice_to orderNum idx)
         | None \<Rightarrow> Some orderNum)
      else orderLoop rest)"

definition extractOrderNumber :: "extern \<Rightarrow> gostring \<Rightarrow> gostring option" where
  "extractOrderNumber x htmlContent =
     (case html_Parse x htmlContent of
        Inl err \<Rightarrow> Some []
      | Inr doc \<Rightarrow> orderLoop (Find sel_any [] doc))"

section \<open>The naming of the attachments in main\<close>




section \<open>Example inputs\<close>

text \<open>A document whose only paragraph holds the order number line followed by a line
  break and more text, the HTML it is parsed from, and collaborators for the examples:
  a clock in February 2026, the ASCII case table, a parser that knows this one document,
  a network without reachable images and a browser that prints every page.\<close>

definition example_html :: gostring where
  "example_html = str ''<p>Bestellnummer: 123456'' @ [10] @ str ''more text</p>''"

definition example_doc :: "node list" where
  "example_doc =
     [Element (str ''html'') []
        [Element (str ''head'') [] [],
         Element (str ''body'') []
           [Element (str ''p'') []
              [TextNode (str ''Bestellnummer: 123456'' @ [10] @ str ''more text'')]]]]"

definition example_extern :: extern where
  "example_extern =
     \<lparr>time_Now = \<lparr>Year = 2026, Month = 2\<rparr>,
      unicode_ToLower = asciiToLower,
      html_Parse = (\<lambda>s. if s = example_html then Inr example_doc else Inl (LibError 1)),
      html_Render = (\<lambda>d. if d = example_doc then Inr example_html else Inl (LibError 2)),
      http_Get = (\<lambda>u. Inl (LibError 3)),
      base64_Encode = (\<lambda>b. []),
      chrome_PrintToPDF = (\<lambda>h. Inr [37, 80, 68, 70])\<rparr>"

text \<open>A paragraph in which a line break follows the label at once, and one without
  the label.\<close>

definition break_doc :: "node list" where
  "break_doc = [Element (str ''p'') [] [TextNode (str ''Bestellnummer:'' @ [10] @ str ''123456'')]]"

definition plain_doc :: "node list" where
  "plain_doc = [Element (str ''p'') [] [TextNode (str ''Hello'')]]"


text \<open>A configuration, an envelope of the current month that matches it, and a message
  body whose only part is an HTML attachment.\<close>

definition example_cfg :: Config where
  "example_cfg =
     \<lparr>Filter_Count = 10, Filter_Subject = str ''Deine Rechnung von Apple'',
      Filter_From = str ''apple.com''\<rparr>"

definition example_envelope :: Envelope where
  "example_envelope =
     \<lparr>env_Date = \<lparr>Year = 2026, Month = 2\<rparr>, env_Subject = str ''Deine Rechnung von Apple'',
      env_From = [\<lparr>HostName = str ''email.apple.com''\<rparr>]\<rparr>"

definition attachment_only :: rawbody where
  "attachment_only =
     Inr [Inr \<lparr>part_Header = AttachmentHeader (str ''text/html''),
               part_Body = Inr (str ''<p>x</p>'')\<rparr>]"


text \<open>A server with two messages that delivers the same matching message, UID 7, twice
  in pass 1, and one with a single message whose pass-1 fetch ends in an error.\<close>

definition dup_server :: imap where
  "dup_server =
     \<lparr>DialTLS = None, Login = None, Select = Inr 2,
      Fetch = (\<lambda>seqSet.
        ([\<lparr>msg_Envelope = Some example_envelope, msg_Uid = 7, msg_Body = None\<rparr>,
          \<lparr>msg_Envelope = Some example_envelope, msg_Uid = 7, msg_Body = None\<rparr>], None)),
      UidFetch = (\<lambda>uids. ([], None))\<rparr>"

definition failing_server :: imap where
  "failing_server =
     \<lparr>DialTLS = None, Login = None, Select = Inr 1,
      Fetch = (\<lambda>seqSet. ([], Some (LibError 9))),
      UidFetch = (\<lambda>uids. ([], None))\<rparr>"















section \<open>Auxiliary notions for the proofs about cleanHTML\<close>


definition parent_of :: "head list \<Rightarrow> head option" where
  "parent_of anc = (case anc of [] \<Rightarrow> None | h # up \<Rightarrow> Some h)"






section \<open>Facts about the string functions\<close>

lemma HasPrefix_prefix: "HasPrefix s p \<longleftrightarrow> prefix p s"
  by (auto simp: HasPrefix_def prefix_def take_is_prefix) (metis append_eq_conv_conj)

lemma Contains_sublist: "Contains s sub \<longleftrightarrow> sublist sub s"
proof (induction s)
  case Nil
  then show ?case by simp
next
  case (Cons c cs)
  then show ?case
    by (simp add: HasPrefix_prefix sublist_Cons_right)
qed

lemma dropWhile_hd_id: "xs = [] \<or> \<not> P (hd xs) \<Longrightarrow> dropWhile P xs = xs"
  by (cases xs) auto

lemma last_dropWhile: "dropWhile P xs \<noteq> [] \<Longrightarrow> last (dropWhile P xs) = last xs"
  by (metis last_appendR takeWhile_dropWhile_id)




lemma TrimSpace_noop:
  assumes "t = [] \<or> (\<not> isSpace (hd t) \<and> \<not> isSpace (last t))"
  shows "TrimSpace t = t"
proof (cases "t = []")
  case True
  then show ?thesis by (simp add: TrimSpace_def)
next
  case False
  with assms have h: "\<not> isSpace (hd t)" and l: "\<not> isSpace (last t)" by auto
  have 1: "dropWhile isSpace t = t" using h by (simp add: dropWhile_hd_id)
  have "hd (rev t) = last t" using False by (simp add: hd_rev)
  then have 2: "dropWhile isSpace (rev t) = rev t" using l by (simp add: dropWhile_hd_id)
  show ?thesis by (simp add: TrimSpace_def 1 2)
qed

lemma TrimSpace_ends:
  "TrimSpace s = [] \<or> (\<not> isSpace (hd (TrimSpace s)) \<and> \<not> isSpace (last (TrimSpace s)))"
proof (cases "TrimSpace s = []")
  case True
  then show ?thesis by simp
next
  case False
  let ?u = "dropWhile isSpace s"
  let ?v = "dropWhile isSpace (rev ?u)"
  from False have v: "?v \<noteq> []" by (simp add: TrimSpace_def)
  then have u: "?u \<noteq> []" by (cases "?u") auto
  have "last (TrimSpace s) = hd ?v" using v by (simp add: TrimSpace_def last_rev)
  moreover have "\<not> isSpace (hd ?v)" using v hd_dropWhile by blast
  moreover have "hd (TrimSpace s) = last ?v" using v by (simp add: TrimSpace_def hd_rev)
  moreover have "last ?v = last (rev ?u)" using v by (rule last_dropWhile)
  moreover have "last (rev ?u) = hd ?u" using u by (simp add: last_rev)
  moreover have "\<not> isSpace (hd ?u)" using u hd_dropWhile by blast
  ultimately show ?thesis by simp
qed

lemma TrimSpace_idem: "TrimSpace (TrimSpace s) = TrimSpace s"
  by (rule TrimSpace_noop) (rule TrimSpace_ends)

section \<open>sanitizeFilename: the allow-list, the runs and the default\<close>





















lemma not_isSpace_invoice: "r \<in> set (str ''invoice'') \<Longrightarrow> \<not> isSpace r"
  by (auto simp: str_def isSpace_def)








section \<open>matchesFilter\<close>

lemma fromLoop_iff:
  "fromLoop tbl addrs flt \<longleftrightarrow>
     (\<exists>a\<in>set addrs. Contains (ToLower tbl (HostName a)) (ToLower tbl flt))"
  by (induction addrs) auto

text \<open>
  C1: matchesFilter is true exactly when the envelope's subject equals the configured
  subject, some sender address has a host name that, lower-cased, contains the
  lower-cased configured sender string as a substring, and the envelope's date has the
  year and the month of the evaluation instant. With no sender address it is false.
\<close>

theorem matchesFilter_iff:
  "(matchesFilter x env cfg \<longleftrightarrow>
     env_Subject env = Filter_Subject cfg \<and>
     (\<exists>a\<in>set (env_From env).
        sublist (map (unicode_ToLower x) (Filter_From cfg))
                (map (unicode_ToLower x) (HostName a))) \<and>
     Year (env_Date env) = Year (time_Now x) \<and> Month (env_Date env) = Month (time_Now x)) \<and>
   (env_From env = [] \<longrightarrow> \<not> matchesFilter x env cfg)"
  by (auto simp: matchesFilter_def Let_def fromLoop_iff Contains_sublist ToLower_def)

theorem matchesFilter_iff_witness:
  "matchesFilter example_extern
     \<lparr>env_Date = \<lparr>Year = 2026, Month = 2\<rparr>, env_Subject = str ''Deine Rechnung von Apple'',
      env_From = [\<lparr>HostName = str ''Email.APPLE.COM''\<rparr>]\<rparr>
     \<lparr>Filter_Count = 10, Filter_Subject = str ''Deine Rechnung von Apple'',
      Filter_From = str ''apple.com''\<rparr> \<and>
   \<not> matchesFilter example_extern
     \<lparr>env_Date = \<lparr>Year = 2025, Month = 12\<rparr>, env_Subject = str ''Deine Rechnung von Apple'',
      env_From = [\<lparr>HostName = str ''Email.APPLE.COM''\<rparr>]\<rparr>
     \<lparr>Filter_Count = 10, Filter_Subject = str ''Deine Rechnung von Apple'',
      Filter_From = str ''apple.com''\<rparr> \<and>
   \<not> matchesFilter example_extern
     \<lparr>env_Date = \<lparr>Year = 2026, Month = 2\<rparr>, env_Subject = str ''Deine Rechnung von Apple'',
      env_From = []\<rparr>
     \<lparr>Filter_Count = 10, Filter_Subject = str ''Deine Rechnung von Apple'',
      Filter_From = str ''apple.com''\<rparr>"
proof -
  have "map asciiToLower (str ''Email.APPLE.COM'') =
        str ''email.'' @ map asciiToLower (str ''apple.com'') @ []"
    by (simp add: str_def asciiToLower_def)
  then have sub: "sublist (map asciiToLower (str ''apple.com''))
      (map asciiToLower (str ''Email.APPLE.COM''))"
    by (metis sublist_appendI)
  have now: "time_Now example_extern = \<lparr>Year = 2026, Month = 2\<rparr>"
    and low: "unicode_ToLower example_extern = asciiToLower"
    by (simp_all add: example_extern_def)
  have 1: "matchesFilter example_extern
     \<lparr>env_Date = \<lparr>Year = 2026, Month = 2\<rparr>, env_Subject = str ''Deine Rechnung von Apple'',
      env_From = [\<lparr>HostName = str ''Email.APPLE.COM''\<rparr>]\<rparr>
     \<lparr>Filter_Count = 10, Filter_Subject = str ''Deine Rechnung von Apple'',
      Filter_From = str ''apple.com''\<rparr>"
    by (rule matchesFilter_iff[THEN conjunct1, THEN iffD2]) (simp add: now low sub)
  have 2: "\<not> matchesFilter example_extern
     \<lparr>env_Date = \<lparr>Year = 2025, Month = 12\<rparr>, env_Subject = str ''Deine Rechnung von Apple'',
      env_From = [\<lparr>HostName = str ''Email.APPLE.COM''\<rparr>]\<rparr>
     \<lparr>Filter_Count = 10, Filter_Subject = str ''Deine Rechnung von Apple'',
      Filter_From = str ''apple.com''\<rparr>"
  proof
    assume "matchesFilter example_extern
     \<lparr>env_Date = \<lparr>Year = 2025, Month = 12\<rparr>, env_Subject = str ''Deine Rechnung von Apple'',
      env_From = [\<lparr>HostName = str ''Email.APPLE.COM''\<rparr>]\<rparr>
     \<lparr>Filter_Count = 10, Filter_Subject = str ''Deine Rechnung von Apple'',
      Filter_From = str ''apple.com''\<rparr>"
    from matchesFilter_iff[THEN conjunct1, THEN iffD1, OF this]
    have "Year (env_Date \<lparr>env_Date = \<lparr>Year = 2025, Month = 12\<rparr>,
        env_Subject = str ''Deine Rechnung von Apple'',
        env_From = [\<lparr>HostName = str ''Email.APPLE.COM''\<rparr>]\<rparr>) = Year (time_Now example_extern)"
      by (elim conjE)
    then show False by (simp add: now)
  qed
  have 3: "\<not> matchesFilter example_extern
     \<lparr>env_Date = \<lparr>Year = 2026, Month = 2\<rparr>, env_Subject = str ''Deine Rechnung von Apple'',
      env_From = []\<rparr>
     \<lparr>Filter_Count = 10, Filter_Subject = str ''Deine Rechnung von Apple'',
      Filter_From = str ''apple.com''\<rparr>"
    by (rule matchesFilter_iff[THEN conjunct2, THEN mp]) simp
  show ?thesis using 1 2 3 by (intro conjI)
qed

section \<open>extractOrderNumber\<close>

lemma IndexAny_Some_less: "IndexAny s chars = Some i \<Longrightarrow> i < length s"
  by (induction s arbitrary: i) (auto split: if_splits)

lemma IndexAny_takeWhile:
  "IndexAny s chars = Some i \<Longrightarrow> take i s = takeWhile (\<lambda>c. c \<notin> set chars) s"
  by (induction s arbitrary: i) (auto split: if_splits)

lemma IndexAny_None: "IndexAny s chars = None \<Longrightarrow> takeWhile (\<lambda>c. c \<notin> set chars) s = s"
  by (induction s) (auto split: if_splits)

text \<open>The index that \<^verbatim>\<open>IndexAny\<close> returns is inside the string, so the slice never
  panics and cuts the string before its first line break or tab.\<close>

lemma slice_to_IndexAny:
  "IndexAny s chars = Some i \<Longrightarrow> slice_to s i = Some (takeWhile (\<lambda>c. c \<notin> set chars) s)"
  by (simp add: slice_to_def IndexAny_takeWhile less_imp_le IndexAny_Some_less)

lemma orderLoop_total: "\<exists>s. orderLoop els = Some s"
proof (induction els)
  case Nil
  then show ?case by simp
next
  case (Cons s rest)
  show ?case
  proof (cases "IndexAny (TrimSpace (TrimPrefix (TrimSpace (Text [s])) (str ''Bestellnummer:''))) [10, 13, 9]")
    case None
    with Cons show ?thesis by (simp add: Let_def)
  next
    case (Some i)
    with Cons show ?thesis by (simp add: Let_def slice_to_IndexAny)
  qed
qed

lemma extractOrderNumber_total: "\<exists>s. extractOrderNumber x h = Some s"
  by (cases "html_Parse x h") (simp_all add: extractOrderNumber_def orderLoop_total)

lemma orderLoop_match:
  assumes "HasPrefix (TrimSpace (Text [s])) (str ''Bestellnummer:'')"
  shows "orderLoop (s # post) =
     Some (TrimSpace (takeWhile (\<lambda>c. c \<notin> {10, 13, 9})
        (TrimSpace (drop (length (str ''Bestellnummer:'')) (TrimSpace (Text [s]))))))"
proof -
  let ?o = "TrimSpace (TrimPrefix (TrimSpace (Text [s])) (str ''Bestellnummer:''))"
  have o: "?o = TrimSpace (drop (length (str ''Bestellnummer:'')) (TrimSpace (Text [s])))"
    using assms by (simp add: TrimPrefix_def)
  show ?thesis
  proof (cases "IndexAny ?o [10, 13, 9]")
    case None
    then have "takeWhile (\<lambda>c. c \<notin> set [10, 13, 9]) ?o = ?o" by (rule IndexAny_None)
    then have "takeWhile (\<lambda>c. c \<notin> {10, 13, 9}) ?o = ?o" by simp
    then have "TrimSpace (takeWhile (\<lambda>c. c \<notin> {10, 13, 9}) ?o) = TrimSpace ?o"
      by (simp only:)
    also have "\<dots> = ?o" by (rule TrimSpace_idem)
    finally have tw: "TrimSpace (takeWhile (\<lambda>c. c \<notin> {10, 13, 9}) ?o) = ?o" .
    have "orderLoop (s # post) = Some ?o" using None assms by (simp add: Let_def)
    then show ?thesis by (simp only: tw o[symmetric])
  next
    case (Some i)
    then have "slice_to ?o i = Some (takeWhile (\<lambda>c. c \<notin> set [10, 13, 9]) ?o)"
      by (rule slice_to_IndexAny)
    then have sl: "slice_to ?o i = Some (takeWhile (\<lambda>c. c \<notin> {10, 13, 9}) ?o)" by simp
    have "orderLoop (s # post) = Some (TrimSpace (takeWhile (\<lambda>c. c \<notin> {10, 13, 9}) ?o))"
      using Some assms by (simp add: Let_def sl del: insert_iff)
    then show ?thesis by (simp only: o[symmetric])
  qed
qed

lemma orderLoop_first:
  assumes "\<forall>e\<in>set pre. \<not> HasPrefix (TrimSpace (Text [e])) (str ''Bestellnummer:'')"
    and "HasPrefix (TrimSpace (Text [s])) (str ''Bestellnummer:'')"
  shows "orderLoop (pre @ s # post) =
     Some (TrimSpace (takeWhile (\<lambda>c. c \<notin> {10, 13, 9})
        (TrimSpace (drop (length (str ''Bestellnummer:'')) (TrimSpace (Text [s]))))))"
  using assms
proof (induction pre)
  case Nil
  then show ?case using orderLoop_match[of s post] by simp
next
  case (Cons e pre)
  then show ?case by (simp add: Let_def)
qed

lemma orderLoop_none:
  "\<forall>e\<in>set els. \<not> HasPrefix (TrimSpace (Text [e])) (str ''Bestellnummer:'') \<Longrightarrow>
   orderLoop els = Some []"
  by (induction els) (auto simp: Let_def)

lemma example_doc_order: "orderLoop (Find sel_any [] example_doc) = Some (str ''123456'')"
  by (simp add: example_doc_def sel_any_def Let_def TrimSpace_def isSpace_def HasPrefix_def
      TrimPrefix_def slice_to_def str_def)

lemma break_doc_order: "orderLoop (Find sel_any [] break_doc) = Some (str ''123456'')"
  by (simp add: break_doc_def sel_any_def Let_def TrimSpace_def isSpace_def HasPrefix_def
      TrimPrefix_def slice_to_def str_def)

text \<open>
  C6, as the claim states it, fails: when a line break (or a tab) follows the label at
  once, the remainder of the text truncated at its first line break is empty, but the
  code trims the remainder before it looks for the line break and returns the number on
  the next line.
\<close>

theorem extractOrderNumber_counterexample:
  "HasPrefix (TrimSpace (Text break_doc)) (str ''Bestellnummer:'') \<and>
   TrimSpace (takeWhile (\<lambda>c. c \<notin> {10, 13, 9})
     (drop (length (str ''Bestellnummer:'')) (TrimSpace (Text break_doc)))) = [] \<and>
   extractOrderNumber (example_extern\<lparr>html_Parse := \<lambda>s. Inr break_doc\<rparr>)
     (str ''<p>Bestellnummer:'' @ [10] @ str ''123456</p>'') = Some (str ''123456'')"
proof -
  have 1: "HasPrefix (TrimSpace (Text break_doc)) (str ''Bestellnummer:'')"
    by (simp add: break_doc_def TrimSpace_def isSpace_def HasPrefix_def str_def)
  have 2: "TrimSpace (takeWhile (\<lambda>c. c \<notin> {10, 13, 9})
     (drop (length (str ''Bestellnummer:'')) (TrimSpace (Text break_doc)))) = []"
    by (simp add: break_doc_def TrimSpace_def isSpace_def str_def)
  have 3: "extractOrderNumber (example_extern\<lparr>html_Parse := \<lambda>s. Inr break_doc\<rparr>)
     (str ''<p>Bestellnummer:'' @ [10] @ str ''123456</p>'') = Some (str ''123456'')"
    by (simp add: extractOrderNumber_def break_doc_order)
  show ?thesis using 1 2 3 by (intro conjI)
qed

text \<open>
  C6 (amended): the elements are visited depth-first, an element before its children and
  its children before its following siblings. For the first element whose trimmed text
  begins with \<open>Bestellnummer:\<close> the result is the remainder of that text, first trimmed
  of surrounding whitespace, then truncated at its first line break or tab, then trimmed
  again. If no element matches, the result is the empty string and no error. For the
  example document, whose text is \<open>Bestellnummer: 123456\<close>, a line break and more text,
  the result is \<open>123456\<close>.
\<close>

theorem extractOrderNumber_first_match:
  assumes "html_Parse x h = Inr doc"
  shows
  "Find sel_any anc (Element t as cs # ks) =
     Element t as cs # Find sel_any ((t, as) # anc) cs @ Find sel_any anc ks \<and>
   (Find sel_any [] doc = pre @ s # post \<and>
    (\<forall>e\<in>set pre. \<not> HasPrefix (TrimSpace (Text [e])) (str ''Bestellnummer:'')) \<and>
    HasPrefix (TrimSpace (Text [s])) (str ''Bestellnummer:'') \<longrightarrow>
    extractOrderNumber x h =
      Some (TrimSpace (takeWhile (\<lambda>c. c \<notin> {10, 13, 9})
        (TrimSpace (drop (length (str ''Bestellnummer:'')) (TrimSpace (Text [s]))))))) \<and>
   ((\<forall>e\<in>set (Find sel_any [] doc). \<not> HasPrefix (TrimSpace (Text [e])) (str ''Bestellnummer:'')) \<longrightarrow>
    extractOrderNumber x h = Some []) \<and>
   (doc = example_doc \<longrightarrow> extractOrderNumber x h = Some (str ''123456''))"
proof -
  have a: "Find sel_any anc (Element t as cs # ks) =
     Element t as cs # Find sel_any ((t, as) # anc) cs @ Find sel_any anc ks"
    by (simp add: sel_any_def)
  have e: "extractOrderNumber x h = orderLoop (Find sel_any [] doc)"
    using assms by (simp add: extractOrderNumber_def)
  have b: "Find sel_any [] doc = pre @ s # post \<and>
    (\<forall>e\<in>set pre. \<not> HasPrefix (TrimSpace (Text [e])) (str ''Bestellnummer:'')) \<and>
    HasPrefix (TrimSpace (Text [s])) (str ''Bestellnummer:'') \<longrightarrow>
    extractOrderNumber x h =
      Some (TrimSpace (takeWhile (\<lambda>c. c \<notin> {10, 13, 9})
        (TrimSpace (drop (length (str ''Bestellnummer:'')) (TrimSpace (Text [s]))))))"
  proof (intro impI, elim conjE)
    assume f: "Find sel_any [] doc = pre @ s # post"
      and n: "\<forall>e\<in>set pre. \<not> HasPrefix (TrimSpace (Text [e])) (str ''Bestellnummer:'')"
      and m: "HasPrefix (TrimSpace (Text [s])) (str ''Bestellnummer:'')"
    show "extractOrderNumber x h =
      Some (TrimSpace (takeWhile (\<lambda>c. c \<notin> {10, 13, 9})
        (TrimSpace (drop (length (str ''Bestellnummer:'')) (TrimSpace (Text [s]))))))"
      using orderLoop_first[OF n m, of post] by (simp only: e f)
  qed
  have c: "(\<forall>e\<in>set (Find sel_any [] doc). \<not> HasPrefix (TrimSpace (Text [e])) (str ''Bestellnummer:'')) \<longrightarrow>
    extractOrderNumber x h = Some []"
    using orderLoop_none[of "Find sel_any [] doc"] by (simp only: e) (rule impI)
  have d: "doc = example_doc \<longrightarrow> extractOrderNumber x h = Some (str ''123456'')"
    using example_doc_order by (simp only: e) (intro impI, simp only:)
  show ?thesis using a b c d by (intro conjI)
qed

theorem extractOrderNumber_first_match_witness:
  "html_Parse example_extern example_html = Inr example_doc \<and>
   extractOrderNumber example_extern example_html = Some (str ''123456'') \<and>
   html_Parse (example_extern\<lparr>html_Parse := \<lambda>s. Inr plain_doc\<rparr>) (str ''<p>Hello</p>'') = Inr plain_doc \<and>
   extractOrderNumber (example_extern\<lparr>html_Parse := \<lambda>s. Inr plain_doc\<rparr>) (str ''<p>Hello</p>'') = Some []"
proof -
  have p: "html_Parse example_extern example_html = Inr example_doc"
    by (simp add: example_extern_def)
  have q: "html_Parse (example_extern\<lparr>html_Parse := \<lambda>s. Inr plain_doc\<rparr>) (str ''<p>Hello</p>'') = Inr plain_doc"
    by simp
  have 1: "extractOrderNumber example_extern example_html = Some (str ''123456'')"
    using extractOrderNumber_first_match[OF p, THEN conjunct2, THEN conjunct2, THEN conjunct2]
    by simp
  have n: "\<forall>e\<in>set (Find sel_any [] plain_doc). \<not> HasPrefix (TrimSpace (Text [e])) (str ''Bestellnummer:'')"
    by (simp add: plain_doc_def sel_any_def TrimSpace_def isSpace_def HasPrefix_def str_def)
  have 2: "extractOrderNumber (example_extern\<lparr>html_Parse := \<lambda>s. Inr plain_doc\<rparr>) (str ''<p>Hello</p>'') = Some []"
    using extractOrderNumber_first_match[OF q, THEN conjunct2, THEN conjunct2, THEN conjunct1] n
    by blast
  show ?thesis using p q 1 2 by (intro conjI)
qed

lemma plain_doc_no_label:
  "\<forall>el\<in>set (Find sel_any [] plain_doc).
      \<not> HasPrefix (TrimSpace (Text [el])) (str ''Bestellnummer:'')"
  by (simp add: plain_doc_def sel_any_def TrimSpace_def isSpace_def HasPrefix_def str_def)

text \<open>
  C10: extractOrderNumber returns a string for every input: the slice inside it never
  panics, and no error leaves it. When the input cannot be parsed the result is the
  empty string, where cleanHTML returns the wrapped parse error; when no element's
  trimmed text begins with the label the result is the empty string as well.
\<close>

theorem extractOrderNumber_never_fails:
  "(\<exists>s. extractOrderNumber x h = Some s) \<and>
   (html_Parse x h = Inl e \<longrightarrow>
      extractOrderNumber x h = Some [] \<and> cleanHTML x h = Inl (Wrap (str ''parsing HTML'') e)) \<and>
   (html_Parse x h = Inr doc \<and>
    (\<forall>el\<in>set (Find sel_any [] doc).
        \<not> HasPrefix (TrimSpace (Text [el])) (str ''Bestellnummer:'')) \<longrightarrow>
      extractOrderNumber x h = Some [])"
proof (intro conjI impI)
  show "\<exists>s. extractOrderNumber x h = Some s"
    by (rule extractOrderNumber_total)
next
  assume "html_Parse x h = Inl e"
  then show "extractOrderNumber x h = Some []" "cleanHTML x h = Inl (Wrap (str ''parsing HTML'') e)"
    by (simp_all add: extractOrderNumber_def cleanHTML_def)
next
  assume "html_Parse x h = Inr doc \<and>
    (\<forall>el\<in>set (Find sel_any [] doc).
        \<not> HasPrefix (TrimSpace (Text [el])) (str ''Bestellnummer:''))"
  then show "extractOrderNumber x h = Some []"
    by (simp add: extractOrderNumber_def orderLoop_none)
qed

theorem extractOrderNumber_never_fails_witness:
  "html_Parse example_extern (str ''<<<'') = Inl (LibError 1) \<and>
   extractOrderNumber example_extern (str ''<<<'') = Some [] \<and>
   cleanHTML example_extern (str ''<<<'') = Inl (Wrap (str ''parsing HTML'') (LibError 1)) \<and>
   html_Parse (example_extern\<lparr>html_Parse := \<lambda>s. Inr plain_doc\<rparr>) (str ''<p>Hello</p>'') = Inr plain_doc \<and>
   extractOrderNumber (example_extern\<lparr>html_Parse := \<lambda>s. Inr plain_doc\<rparr>) (str ''<p>Hello</p>'') = Some []"
proof -
  have p: "html_Parse example_extern (str ''<<<'') = Inl (LibError 1)"
    by (simp add: example_extern_def example_html_def str_def)
  have q: "html_Parse (example_extern\<lparr>html_Parse := \<lambda>s. Inr plain_doc\<rparr>) (str ''<p>Hello</p>'') = Inr plain_doc"
    by simp
  note t1 = extractOrderNumber_never_fails[of example_extern "str ''<<<''" "LibError 1",
      THEN conjunct2, THEN conjunct1, THEN mp, OF p]
  note t2 = extractOrderNumber_never_fails[of "example_extern\<lparr>html_Parse := \<lambda>s. Inr plain_doc\<rparr>"
      "str ''<p>Hello</p>''" _ plain_doc, THEN conjunct2, THEN conjunct2, THEN mp,
      OF conjI, OF q plain_doc_no_label]
  show ?thesis using p q t1 t2 by (intro conjI) (elim conjE, assumption)+
qed

section \<open>The file names built in main\<close>
























section \<open>extractHTMLBody\<close>

lemma partLoop_skip:
  "\<forall>q\<in>set pre. part_Header q \<noteq> InlineHeader (str ''text/html'') \<Longrightarrow>
   partLoop (map Inr pre @ rest) = partLoop rest"
proof (induction pre)
  case Nil
  then show ?case by simp
next
  case (Cons q pre)
  then show ?case by (cases "part_Header q") auto
qed

lemma partLoop_NotFound_iff:
  "partLoop ps = Inl (NewError (str ''no text/html part found'')) \<longleftrightarrow>
   (\<exists>parts. ps = map Inr parts \<and>
      (\<forall>q\<in>set parts. part_Header q \<noteq> InlineHeader (str ''text/html'')))"
proof (induction ps rule: partLoop.induct)
  case 1
  then show ?case by simp
next
  case (2 err rest)
  then show ?case by (auto simp: map_eq_Cons_conv)
next
  case (3 p rest)
  show ?case
  proof (cases "part_Header p = InlineHeader (str ''text/html'')")
    case True
    then show ?thesis
      by (auto simp: map_eq_Cons_conv split: sum.splits)
  next
    case False
    then have step: "partLoop (Inr p # rest) = partLoop rest"
      by (cases "part_Header p") auto
    have ih: "(partLoop rest = Inl (NewError (str ''no text/html part found''))) =
       (\<exists>parts. rest = map Inr parts \<and>
          (\<forall>q\<in>set parts. part_Header q \<noteq> InlineHeader (str ''text/html'')))"
      using False 3 by (cases "part_Header p") auto
    show ?thesis
      unfolding step ih using False
      by (auto simp: map_eq_Cons_conv) (metis list.simps(9) set_ConsD)
  qed
qed

text \<open>
  C5, as the claim states it, fails: a part with an attachment header is passed over
  whatever its media type, so a body whose only part is an HTML attachment gives
  \<open>no text/html part found\<close> although a part of declared kind text/html exists.
\<close>

theorem extractHTMLBody_counterexample:
  "attachment_only =
     Inr [Inr \<lparr>part_Header = AttachmentHeader (str ''text/html''),
               part_Body = Inr (str ''<p>x</p>'')\<rparr>] \<and>
   header_ContentType (AttachmentHeader (str ''text/html'')) = str ''text/html'' \<and>
   extractHTMLBody attachment_only = Inl (NewError (str ''no text/html part found''))"
  by (simp add: attachment_only_def extractHTMLBody_def)

text \<open>
  C5 (amended): extractHTMLBody returns the content of the first part that has an
  inline header (not an attachment header) and the media type text/html, and does not
  look at the parts after it. The error \<open>no text/html part found\<close> is returned if and
  only if the reader is created, every part is read without error and no part is an
  inline part of type text/html. The other errors are: the reader cannot be created,
  a part cannot be read before an inline HTML part was found, and the body of that
  part cannot be read.
\<close>

theorem extractHTMLBody_first_inline_html:
  "((\<forall>q\<in>set pre. part_Header q \<noteq> InlineHeader (str ''text/html'')) \<and>
    part_Header p = InlineHeader (str ''text/html'') \<longrightarrow>
    extractHTMLBody (Inr (map Inr pre @ Inr p # post)) =
      (case part_Body p of
         Inl err \<Rightarrow> Inl (Wrap (str ''reading HTML body'') err)
       | Inr body \<Rightarrow> Inr body)) \<and>
   (extractHTMLBody r = Inl (NewError (str ''no text/html part found'')) \<longleftrightarrow>
      (\<exists>parts. r = Inr (map Inr parts) \<and>
         (\<forall>q\<in>set parts. part_Header q \<noteq> InlineHeader (str ''text/html'')))) \<and>
   extractHTMLBody (Inl e) = Inl (Wrap (str ''creating mail reader'') e) \<and>
   ((\<forall>q\<in>set pre. part_Header q \<noteq> InlineHeader (str ''text/html'')) \<longrightarrow>
    extractHTMLBody (Inr (map Inr pre @ Inl e # post)) = Inl (Wrap (str ''reading mail part'') e))"
proof (intro conjI impI)
  assume "(\<forall>q\<in>set pre. part_Header q \<noteq> InlineHeader (str ''text/html'')) \<and>
    part_Header p = InlineHeader (str ''text/html'')"
  then show "extractHTMLBody (Inr (map Inr pre @ Inr p # post)) =
      (case part_Body p of
         Inl err \<Rightarrow> Inl (Wrap (str ''reading HTML body'') err)
       | Inr body \<Rightarrow> Inr body)"
    by (simp add: extractHTMLBody_def partLoop_skip)
next
  show "extractHTMLBody r = Inl (NewError (str ''no text/html part found'')) \<longleftrightarrow>
      (\<exists>parts. r = Inr (map Inr parts) \<and>
         (\<forall>q\<in>set parts. part_Header q \<noteq> InlineHeader (str ''text/html'')))"
    by (cases r) (simp_all add: extractHTMLBody_def partLoop_NotFound_iff)
next
  show "extractHTMLBody (Inl e) = Inl (Wrap (str ''creating mail reader'') e)"
    by (simp add: extractHTMLBody_def)
next
  assume "\<forall>q\<in>set pre. part_Header q \<noteq> InlineHeader (str ''text/html'')"
  then show "extractHTMLBody (Inr (map Inr pre @ Inl e # post)) =
      Inl (Wrap (str ''reading mail part'') e)"
    by (simp add: extractHTMLBody_def partLoop_skip)
qed

theorem extractHTMLBody_first_inline_html_witness:
  "extractHTMLBody
     (Inr [Inr \<lparr>part_Header = InlineHeader (str ''text/plain''), part_Body = Inr (str ''hello'')\<rparr>,
           Inr \<lparr>part_Header = InlineHeader (str ''text/html''), part_Body = Inr (str ''<p>a</p>'')\<rparr>,
           Inr \<lparr>part_Header = InlineHeader (str ''text/html''), part_Body = Inr (str ''<p>b</p>'')\<rparr>])
     = Inr (str ''<p>a</p>'') \<and>
   extractHTMLBody
     (Inr [Inr \<lparr>part_Header = InlineHeader (str ''text/plain''), part_Body = Inr (str ''hello'')\<rparr>])
     = Inl (NewError (str ''no text/html part found'')) \<and>
   extractHTMLBody
     (Inr [Inr \<lparr>part_Header = InlineHeader (str ''text/plain''), part_Body = Inr (str ''hello'')\<rparr>,
           Inl (LibError 4)])
     = Inl (Wrap (str ''reading mail part'') (LibError 4))"
proof -
  have ne: "InlineHeader (str ''text/plain'') \<noteq> InlineHeader (str ''text/html'')"
    by (simp add: str_def)
  let ?plain = "\<lparr>part_Header = InlineHeader (str ''text/plain''), part_Body = Inr (str ''hello'')\<rparr>"
  let ?a = "\<lparr>part_Header = InlineHeader (str ''text/html''), part_Body = Inr (str ''<p>a</p>'')\<rparr>"
  let ?b = "\<lparr>part_Header = InlineHeader (str ''text/html''), part_Body = Inr (str ''<p>b</p>'')\<rparr>"
  have 1: "extractHTMLBody (Inr [Inr ?plain, Inr ?a, Inr ?b]) = Inr (str ''<p>a</p>'')"
    using extractHTMLBody_first_inline_html[of "[?plain]" ?a "[Inr ?b]", THEN conjunct1] ne
    by simp
  have ex: "\<exists>parts. (Inr [Inr ?plain] :: rawbody) = Inr (map Inr parts) \<and>
         (\<forall>q\<in>set parts. part_Header q \<noteq> InlineHeader (str ''text/html''))"
    using ne by (intro exI[of _ "[?plain]"]) simp
  have 2: "extractHTMLBody (Inr [Inr ?plain]) = Inl (NewError (str ''no text/html part found''))"
    by (rule extractHTMLBody_first_inline_html[THEN conjunct2, THEN conjunct1, THEN iffD2])
       (rule ex)
  have 3: "extractHTMLBody (Inr [Inr ?plain, Inl (LibError 4)]) =
      Inl (Wrap (str ''reading mail part'') (LibError 4))"
    using extractHTMLBody_first_inline_html[of "[?plain]" _ "[]" _ "LibError 4",
        THEN conjunct2, THEN conjunct2, THEN conjunct2] ne
    by simp
  show ?thesis using 1 2 3 by (intro conjI)
qed

section \<open>The two passes of fetchInvoices\<close>

lemma uidLoop_eq:
  "uidLoop x cfg msgs uids =
     uids @ map msg_Uid (filter (\<lambda>msg. case msg_Envelope msg of
                                          None \<Rightarrow> False
                                        | Some env \<Rightarrow> matchesFilter x env cfg) msgs)"
  by (induction msgs arbitrary: uids) (auto split: option.splits)

lemma example_envelope_matches: "matchesFilter example_extern example_envelope example_cfg"
  by (simp add: matchesFilter_def example_extern_def example_envelope_def example_cfg_def
      ToLower_def asciiToLower_def HasPrefix_def str_def)

text \<open>
  C3, as the claim states it, fails: pass 1 appends the UID of every matching message it
  receives and never looks at the UIDs it already has. A store that delivers the
  matching message with UID 7 twice gives the candidate list 7, 7.
\<close>

theorem fetchMatchingUIDs_counterexample:
  "fst (Fetch dup_server (1, 2)) =
     [\<lparr>msg_Envelope = Some example_envelope, msg_Uid = 7, msg_Body = None\<rparr>,
      \<lparr>msg_Envelope = Some example_envelope, msg_Uid = 7, msg_Body = None\<rparr>] \<and>
   fetchMatchingUIDs example_extern dup_server (1, 2) example_cfg = [7, 7] \<and>
   \<not> distinct (fetchMatchingUIDs example_extern dup_server (1, 2) example_cfg)"
  by (simp add: fetchMatchingUIDs_def dup_server_def example_envelope_matches)

text \<open>
  C3 (amended): the candidate list of pass 1 holds the UIDs of the delivered messages
  that have an envelope matching the filter, in the order of delivery and once for each
  delivery. It is free of duplicates whenever the store delivers no UID more than once.
\<close>

theorem fetchMatchingUIDs_candidates:
  "fetchMatchingUIDs x c seqSet cfg =
     map msg_Uid (filter (\<lambda>msg. case msg_Envelope msg of
                                   None \<Rightarrow> False
                                 | Some env \<Rightarrow> matchesFilter x env cfg) (fst (Fetch c seqSet))) \<and>
   (distinct (map msg_Uid (fst (Fetch c seqSet))) \<longrightarrow>
      distinct (fetchMatchingUIDs x c seqSet cfg))"
proof -
  have eq: "fetchMatchingUIDs x c seqSet cfg =
     map msg_Uid (filter (\<lambda>msg. case msg_Envelope msg of
                                   None \<Rightarrow> False
                                 | Some env \<Rightarrow> matchesFilter x env cfg) (fst (Fetch c seqSet)))"
    by (cases "Fetch c seqSet") (simp add: fetchMatchingUIDs_def uidLoop_eq)
  show ?thesis
    unfolding eq by (simp add: distinct_map_filter)
qed

theorem fetchMatchingUIDs_candidates_witness:
  "distinct (map msg_Uid (fst (Fetch
      (dup_server\<lparr>Fetch := \<lambda>seqSet.
         ([\<lparr>msg_Envelope = Some example_envelope, msg_Uid = 7, msg_Body = None\<rparr>,
           \<lparr>msg_Envelope = None, msg_Uid = 8, msg_Body = None\<rparr>,
           \<lparr>msg_Envelope = Some example_envelope, msg_Uid = 9, msg_Body = None\<rparr>], None)\<rparr>) (1, 2)))) \<and>
   fetchMatchingUIDs example_extern
      (dup_server\<lparr>Fetch := \<lambda>seqSet.
         ([\<lparr>msg_Envelope = Some example_envelope, msg_Uid = 7, msg_Body = None\<rparr>,
           \<lparr>msg_Envelope = None, msg_Uid = 8, msg_Body = None\<rparr>,
           \<lparr>msg_Envelope = Some example_envelope, msg_Uid = 9, msg_Body = None\<rparr>], None)\<rparr>)
      (1, 2) example_cfg = [7, 9] \<and>
   distinct (fetchMatchingUIDs example_extern
      (dup_server\<lparr>Fetch := \<lambda>seqSet.
         ([\<lparr>msg_Envelope = Some example_envelope, msg_Uid = 7, msg_Body = None\<rparr>,
           \<lparr>msg_Envelope = None, msg_Uid = 8, msg_Body = None\<rparr>,
           \<lparr>msg_Envelope = Some example_envelope, msg_Uid = 9, msg_Body = None\<rparr>], None)\<rparr>)
      (1, 2) example_cfg)"
proof -
  let ?c = "dup_server\<lparr>Fetch := \<lambda>seqSet.
         ([\<lparr>msg_Envelope = Some example_envelope, msg_Uid = 7, msg_Body = None\<rparr>,
           \<lparr>msg_Envelope = None, msg_Uid = 8, msg_Body = None\<rparr>,
           \<lparr>msg_Envelope = Some example_envelope, msg_Uid = 9, msg_Body = None\<rparr>], None)\<rparr>"
  have d: "distinct (map msg_Uid (fst (Fetch ?c (1, 2))))" by simp
  note t = fetchMatchingUIDs_candidates[of example_extern ?c "(1, 2)" example_cfg]
  have 1: "fetchMatchingUIDs example_extern ?c (1, 2) example_cfg = [7, 9]"
    using t[THEN conjunct1] by (simp add: example_envelope_matches)
  have 2: "distinct (fetchMatchingUIDs example_extern ?c (1, 2) example_cfg)"
    using t[THEN conjunct2] d by blast
  show ?thesis using d 1 2 by (intro conjI)
qed








lemma uint_of_positive_sint:
  fixes n :: "64 word"
  assumes "0 < sint n" "sint n < 2 ^ 32"
  shows "uint n = sint n"
proof -
  have "sint n < 2 ^ 64" using assms(2) by simp
  then show ?thesis using assms(1) by (simp add: uint_sint take_bit_int_eq_self)
qed

lemma ucast_count:
  fixes n :: "64 word"
  assumes "0 < sint n" "sint n < 2 ^ 32"
  shows "unat (ucast n :: 32 word) = nat (sint n)"
proof -
  have u: "unat n = nat (sint n)"
    using uint_of_positive_sint[OF assms] by (simp add: unat_eq_nat_uint)
  have "nat (sint n) < 2 ^ 32" using assms by (simp add: nat_less_iff)
  then show ?thesis
    by (simp add: unsigned_ucast_eq u take_bit_nat_eq_self)
qed

lemma from_unat:
  fixes m count :: "32 word"
  assumes "count < m" "0 < count"
  shows "unat (m - count + 1) = unat m - unat count + 1"
proof -
  have le: "count \<le> m" using assms by simp
  have pos: "0 < unat count" using assms(2) by (simp add: word_less_nat_alt)
  have s: "unat (m - count) = unat m - unat count" using le by (rule unat_sub)
  have "unat m < 2 ^ 32" using unsigned_less[of m, where 'a=nat] by simp
  moreover have "unat count < unat m" using assms by (simp add: word_less_nat_alt)
  ultimately have "unat (m - count) + unat (1 :: 32 word) < 2 ^ LENGTH(32)"
    using s pos by simp
  then have "unat (m - count + 1) = unat (m - count) + unat (1 :: 32 word)"
    by (simp only: unat_add_lem)
  then show ?thesis using s by simp
qed

lemma windowFrom_in_range:
  assumes "0 < sint (Filter_Count cfg)" "sint (Filter_Count cfg) < 2 ^ 32"
  shows "unat (windowFrom cfg messages) =
     unat messages - min (nat (sint (Filter_Count cfg))) (unat messages) + 1"
proof (cases "(ucast (Filter_Count cfg) :: 32 word) < messages")
  case True
  then have "nat (sint (Filter_Count cfg)) < unat messages"
    using ucast_count[OF assms] by (simp add: word_less_nat_alt)
  moreover have "0 < (ucast (Filter_Count cfg) :: 32 word)"
    using ucast_count[OF assms] assms(1) by (simp add: word_less_nat_alt)
  ultimately show ?thesis
    using True assms(1) from_unat[OF True] ucast_count[OF assms]
    by (simp add: windowFrom_def Let_def min_def)
next
  case False
  then have "unat messages \<le> nat (sint (Filter_Count cfg))"
    using ucast_count[OF assms] by (simp add: word_less_nat_alt)
  then show ?thesis
    using False assms(1) by (simp add: windowFrom_def Let_def min_def)
qed

lemma windowFrom_unbounded: "sint (Filter_Count cfg) \<le> 0 \<Longrightarrow> windowFrom cfg messages = 1"
  by (simp add: windowFrom_def)


text \<open>
  C2 at an input where the code departs from it: the count 4294967301 is positive and
  larger than a mailbox of 10 messages, so the window should be the whole mailbox,
  positions 1 to 10. The conversion to \<^verbatim>\<open>uint32\<close> keeps 5, and the window starts at
  position 6.
\<close>

theorem windowFrom_wraps:
  "sint (Filter_Count (example_cfg\<lparr>Filter_Count := 4294967301\<rparr>)) = 4294967301 \<and>
   windowFrom (example_cfg\<lparr>Filter_Count := 4294967301\<rparr>) 10 = 6 \<and>
   fetchInvoices example_extern
     (failing_server\<lparr>Select := Inr 10\<rparr>) (example_cfg\<lparr>Filter_Count := 4294967301\<rparr>) =
     (Some (Inr []), [Cmd_DialTLS, Cmd_Login, Cmd_Select, Cmd_Fetch 6 10, Cmd_Logout])"
  by (simp add: windowFrom_def Let_def fetchInvoices_def failing_server_def
      fetchMatchingUIDs_def)

text \<open>
  The scan window where the count fits \<^verbatim>\<open>uint32\<close>: for a count \<open>N\<close> with
  \<open>0 < N < 2^32\<close> the sequence range starts at the first of the last
  \<open>min N total\<close> positions; for a count that is zero (or negative) it starts at position
  1; it always ends at the last position. For an empty mailbox fetchInvoices returns the
  empty result after the select, and sends no fetch.
\<close>

theorem scan_window_in_range:
  "(0 < sint (Filter_Count cfg) \<and> sint (Filter_Count cfg) < 2 ^ 32 \<longrightarrow>
      unat (windowFrom cfg messages) =
        unat messages - min (nat (sint (Filter_Count cfg))) (unat messages) + 1) \<and>
   (sint (Filter_Count cfg) \<le> 0 \<longrightarrow> windowFrom cfg messages = 1) \<and>
   (DialTLS c = None \<and> Login c = None \<and> Select c = Inr 0 \<longrightarrow>
      fetchInvoices x c cfg =
        (Some (Inr []), [Cmd_DialTLS, Cmd_Login, Cmd_Select, Cmd_Logout])) \<and>
   (DialTLS c = None \<and> Login c = None \<and> Select c = Inr messages \<and> messages \<noteq> 0 \<longrightarrow>
      Cmd_Fetch (windowFrom cfg messages) messages \<in> set (snd (fetchInvoices x c cfg)))"
proof (intro conjI impI)
  assume "0 < sint (Filter_Count cfg) \<and> sint (Filter_Count cfg) < 2 ^ 32"
  then show "unat (windowFrom cfg messages) =
        unat messages - min (nat (sint (Filter_Count cfg))) (unat messages) + 1"
    by (simp add: windowFrom_in_range)
next
  assume "sint (Filter_Count cfg) \<le> 0"
  then show "windowFrom cfg messages = 1" by (rule windowFrom_unbounded)
next
  assume "DialTLS c = None \<and> Login c = None \<and> Select c = Inr 0"
  then show "fetchInvoices x c cfg =
        (Some (Inr []), [Cmd_DialTLS, Cmd_Login, Cmd_Select, Cmd_Logout])"
    by (simp add: fetchInvoices_def)
next
  assume "DialTLS c = None \<and> Login c = None \<and> Select c = Inr messages \<and> messages \<noteq> 0"
  then show "Cmd_Fetch (windowFrom cfg messages) messages \<in> set (snd (fetchInvoices x c cfg))"
    by (simp add: fetchInvoices_def Let_def)
qed

theorem scan_window_in_range_witness:
  "unat (windowFrom (example_cfg\<lparr>Filter_Count := 5\<rparr>) 12) = 8 \<and>
   unat (windowFrom (example_cfg\<lparr>Filter_Count := 5\<rparr>) 3) = 1 \<and>
   windowFrom (example_cfg\<lparr>Filter_Count := 0\<rparr>) 12 = 1 \<and>
   fetchInvoices example_extern (failing_server\<lparr>Select := Inr 0\<rparr>) example_cfg =
     (Some (Inr []), [Cmd_DialTLS, Cmd_Login, Cmd_Select, Cmd_Logout]) \<and>
   Cmd_Fetch (windowFrom example_cfg 1) 1 \<in> set (snd (fetchInvoices example_extern failing_server example_cfg))"
proof -
  have r: "0 < sint (Filter_Count (example_cfg\<lparr>Filter_Count := 5\<rparr>)) \<and>
        sint (Filter_Count (example_cfg\<lparr>Filter_Count := 5\<rparr>)) < 2 ^ 32"
    by simp
  have 1: "unat (windowFrom (example_cfg\<lparr>Filter_Count := 5\<rparr>) 12) = 8"
    using scan_window_in_range[of "example_cfg\<lparr>Filter_Count := 5\<rparr>" 12, THEN conjunct1, THEN mp, OF r]
    by simp
  have 2: "unat (windowFrom (example_cfg\<lparr>Filter_Count := 5\<rparr>) 3) = 1"
    using scan_window_in_range[of "example_cfg\<lparr>Filter_Count := 5\<rparr>" 3, THEN conjunct1, THEN mp, OF r]
    by simp
  have 3: "windowFrom (example_cfg\<lparr>Filter_Count := 0\<rparr>) 12 = 1"
    by (rule scan_window_in_range[THEN conjunct2, THEN conjunct1, THEN mp]) simp
  have 4: "fetchInvoices example_extern (failing_server\<lparr>Select := Inr 0\<rparr>) example_cfg =
     (Some (Inr []), [Cmd_DialTLS, Cmd_Login, Cmd_Select, Cmd_Logout])"
    by (rule scan_window_in_range[THEN conjunct2, THEN conjunct2, THEN conjunct1, THEN mp])
       (simp add: failing_server_def)
  have 5: "Cmd_Fetch (windowFrom example_cfg 1) 1 \<in>
      set (snd (fetchInvoices example_extern failing_server example_cfg))"
    by (rule scan_window_in_range[THEN conjunct2, THEN conjunct2, THEN conjunct2, THEN mp])
       (simp add: failing_server_def)
  show ?thesis using 1 2 3 4 5 by (intro conjI)
qed

lemma bodyLoop_skip:
  assumes "msg_Body msg = None \<or> (\<exists>r err. msg_Body msg = Some r \<and> extractHTMLBody r = Inl err)"
  shows "bodyLoop (pre @ msg # post) invoices = bodyLoop (pre @ post) invoices"
proof (induction pre arbitrary: invoices)
  case Nil
  from assms show ?case by auto
next
  case (Cons m pre)
  then show ?case by (auto split: option.splits sum.splits)
qed

text \<open>
  Tolerance of pass 2 for single messages: a delivered message without a body, or one
  whose body yields no HTML part, adds no invoice and does not stop the loop; the result
  of fetchBodies is the one it would have had without that message.
\<close>

theorem fetchBodies_skips_failed_items:
  assumes "UidFetch c (set uids) = (pre @ msg # post, done)"
    and "msg_Body msg = None \<or> (\<exists>r err. msg_Body msg = Some r \<and> extractHTMLBody r = Inl err)"
  shows "fetchBodies c uids = fetchBodies (c\<lparr>UidFetch := \<lambda>s. (pre @ post, done)\<rparr>) uids"
  using assms(1) bodyLoop_skip[OF assms(2), of pre post "[]"]
  by (simp add: fetchBodies_def)

theorem fetchBodies_skips_failed_items_witness:
  "fetchBodies
     (dup_server\<lparr>UidFetch := \<lambda>s.
        ([\<lparr>msg_Envelope = Some example_envelope, msg_Uid = 7, msg_Body = Some attachment_only\<rparr>,
          \<lparr>msg_Envelope = Some example_envelope, msg_Uid = 9,
           msg_Body = Some (Inr [Inr \<lparr>part_Header = InlineHeader (str ''text/html''),
                                       part_Body = Inr example_html\<rparr>])\<rparr>], None)\<rparr>) [7, 9] =
   Some (Inr [\<lparr>Subject = env_Subject example_envelope, Date = env_Date example_envelope,
               HTMLBody = example_html\<rparr>])"
proof -
  let ?bad = "\<lparr>msg_Envelope = Some example_envelope, msg_Uid = 7, msg_Body = Some attachment_only\<rparr>"
  let ?good = "\<lparr>msg_Envelope = Some example_envelope, msg_Uid = 9,
           msg_Body = Some (Inr [Inr \<lparr>part_Header = InlineHeader (str ''text/html''),
                                       part_Body = Inr example_html\<rparr>])\<rparr>"
  let ?c = "dup_server\<lparr>UidFetch := \<lambda>s. ([?bad, ?good], None)\<rparr>"
  have u: "UidFetch ?c (set [7, 9]) = ([] @ ?bad # [?good], None)" by simp
  have b: "msg_Body ?bad = None \<or>
      (\<exists>r err. msg_Body ?bad = Some r \<and> extractHTMLBody r = Inl err)"
    by (simp add: attachment_only_def extractHTMLBody_def)
  have "fetchBodies ?c [7, 9] = fetchBodies (?c\<lparr>UidFetch := \<lambda>s. ([] @ [?good], None)\<rparr>) [7, 9]"
    using fetchBodies_skips_failed_items[OF u b] .
  also have "\<dots> = Some (Inr [\<lparr>Subject = env_Subject example_envelope,
      Date = env_Date example_envelope, HTMLBody = example_html\<rparr>])"
    by (simp add: fetchBodies_def extractHTMLBody_def)
  finally show ?thesis .
qed

section \<open>cleanHTML applied twice\<close>

lemma parent_of_Cons [simp]: "parent_of (h # anc) = Some h"
  by (simp add: parent_of_def)

lemma parent_of_Nil [simp]: "parent_of [] = None"
  by (simp add: parent_of_def)

























































end
